theory Spec2Isabelle
  imports Main "HOL-Library.FSet"
begin

section \<open>Data model\<close>

text \<open>
  The shortcut record of \<^verbatim>\<open>src/src/extension.ts\<close> (interface
  \<^verbatim>\<open>TerminalShortcutConfig\<close>). A field the interface marks optional (\<^verbatim>\<open>?\<close>)
  is an option: \<open>None\<close> is a property that the object does not have, \<open>Some v\<close> a property
  the object specifies. The field \<^verbatim>\<open>id\<close> is called \<open>ident\<close> here, as \<open>id\<close> is
  the identity function of HOL. \<^verbatim>\<open>location\<close> is kept as the string the document holds.
\<close>

type_synonym EnvMap = "(string \<times> string) list"

record ShortcutIconConfig =
  light :: "string option"
  dark :: "string option"

record TerminalShortcutConfig =
  ident :: string
  label :: string
  command :: string
  terminalName :: "string option"
  cwd :: "string option"
  env :: "EnvMap option"
  reuse :: "bool option"
  focus :: "bool option"
  statusBar :: "bool option"
  codicon :: "string option"
  statusBarText :: "string option"
  icon :: "ShortcutIconConfig option"
  location :: "string option"
  viewColumn :: "int option"

text \<open>
  \<^verbatim>\<open>interface FileConfig { commands?: TerminalShortcutConfig[] }\<close>. \<open>None\<close> stands for a
  document whose \<^verbatim>\<open>commands\<close> is missing or is not an array: both fail the test
  \<^verbatim>\<open>fromFile.commands && Array.isArray(fromFile.commands)\<close> of \<^verbatim>\<open>loadShortcuts\<close>.
  An empty array is \<open>Some []\<close>: in JavaScript it is truthy and it is an array.
\<close>

record FileConfig =
  commands :: "TerminalShortcutConfig list option"

section \<open>Reading the per-project file\<close>

text \<open>
  What can happen inside the \<^verbatim>\<open>try\<close> block of \<^verbatim>\<open>readFileConfig\<close> for one candidate
  path: \<^verbatim>\<open>fs.readFile\<close> throws, \<^verbatim>\<open>JSON.parse\<close> throws, or a value is parsed. The
  parsed value either fails the test \<^verbatim>\<open>config && typeof config === 'object'\<close>
  (\<open>NotAnObject\<close>: null, a number, a string, a boolean) or passes it.
\<close>

datatype error = ReadFailed | SyntaxError

datatype parsed = NotAnObject | Document FileConfig

text \<open>
  The surroundings \<^verbatim>\<open>loadShortcuts\<close> reads: whether a workspace folder is open, the
  outcome of reading each of the two candidate files
  (\<^verbatim>\<open>.vscode/terminal-shortcuts.json\<close>, then \<^verbatim>\<open>terminal-shortcuts.json\<close>), and the two
  settings \<^verbatim>\<open>terminalShortcuts.commands\<close> and \<^verbatim>\<open>terminalShortcuts.mergeUserAndWorkspace\<close>,
  each \<open>None\<close> when \<^verbatim>\<open>config.get\<close> returns \<^verbatim>\<open>undefined\<close>.
\<close>

record Workspace =
  hasFolder :: bool
  primaryFile :: "error + parsed"
  fallbackFile :: "error + parsed"
  settingsCommands :: "TerminalShortcutConfig list option"
  mergeUserAndWorkspace :: "bool option"

text \<open>
  The loop \<^verbatim>\<open>for (const uri of [primary, fallback])\<close>: an exception is caught and
  ignored, a value that is not an object is skipped, the first document is returned.
\<close>

fun readCandidates :: "(error + parsed) list \<Rightarrow> FileConfig option" where
  "readCandidates [] = None"
| "readCandidates (Inl e # rest) = readCandidates rest"
| "readCandidates (Inr NotAnObject # rest) = readCandidates rest"
| "readCandidates (Inr (Document config) # rest) = Some config"

definition readFileConfig :: "Workspace \<Rightarrow> FileConfig option" where
  "readFileConfig w =
     (if \<not> hasFolder w then None
      else readCandidates [primaryFile w, fallbackFile w])"

section \<open>Config resolver\<close>

text \<open>
  \<^verbatim>\<open>arr.map(s => ({ reuse: true, focus: true, codicon: 'terminal', location: 'editor', ...s }))\<close>:
  the four defaults are written first and every property of \<open>s\<close> is spread over them.
\<close>

definition withDefault :: "'a \<Rightarrow> 'a option \<Rightarrow> 'a option" where
  "withDefault d v = (case v of None \<Rightarrow> Some d | Some x \<Rightarrow> Some x)"

definition normalizeShortcut :: "TerminalShortcutConfig \<Rightarrow> TerminalShortcutConfig" where
  "normalizeShortcut s =
     s\<lparr> reuse := withDefault True (reuse s),
        focus := withDefault True (focus s),
        codicon := withDefault ''terminal'' (codicon s),
        location := withDefault ''editor'' (location s) \<rparr>"

definition normalizeShortcuts :: "TerminalShortcutConfig list \<Rightarrow> TerminalShortcutConfig list" where
  "normalizeShortcuts arr = map normalizeShortcut arr"

text \<open>
  \<^verbatim>\<open>mergeShortcuts\<close>: the set of the primary list's ids, the secondary records whose id is
  not in it, and the concatenation.
\<close>

definition mergeShortcuts ::
  "TerminalShortcutConfig list \<Rightarrow> TerminalShortcutConfig list \<Rightarrow> TerminalShortcutConfig list" where
  "mergeShortcuts primary secondary =
     (let ids = set (map ident primary);
          extras = filter (\<lambda>s. ident s \<notin> ids) secondary
      in primary @ extras)"

text \<open>
  \<^verbatim>\<open>loadShortcuts\<close>. \<^verbatim>\<open>config.get('commands') || []\<close> and
  \<^verbatim>\<open>config.get('mergeUserAndWorkspace') ?? true\<close> are the two \<open>case\<close> expressions.
\<close>

definition loadShortcuts :: "Workspace \<Rightarrow> TerminalShortcutConfig list" where
  "loadShortcuts w =
     (let fromFile = readFileConfig w;
          fromSettings = (case settingsCommands w of None \<Rightarrow> [] | Some cs \<Rightarrow> cs);
          mergeWithSettings = (case mergeUserAndWorkspace w of None \<Rightarrow> True | Some b \<Rightarrow> b)
      in case fromFile of
           None \<Rightarrow> normalizeShortcuts fromSettings
         | Some config \<Rightarrow>
             (case commands config of
                None \<Rightarrow> normalizeShortcuts fromSettings
              | Some fileCommands \<Rightarrow>
                  if mergeWithSettings
                  then normalizeShortcuts (mergeShortcuts fileCommands fromSettings)
                  else normalizeShortcuts fileCommands))"

text \<open>
  The lists above hold shortcut records, as the interface types them, and on such lists
  \<^verbatim>\<open>loadShortcuts\<close> returns a list. The parsed file and the settings can also hold
  an array with an entry that is not a record. \<^verbatim>\<open>mergeShortcuts\<close> reads
  \<^verbatim>\<open>s.id\<close> of every entry of both arrays, outside any \<^verbatim>\<open>try\<close>: on a
  \<^verbatim>\<open>null\<close> entry that read throws a TypeError, which \<^verbatim>\<open>loadShortcuts\<close> does not
  catch. \<open>mergeEntries\<close> is \<^verbatim>\<open>mergeShortcuts\<close> on arrays whose entries are records
  or \<^verbatim>\<open>null\<close>: \<open>mapIds\<close> is \<^verbatim>\<open>primary.map(s => s.id)\<close> and \<open>filterExtras\<close> is
  \<^verbatim>\<open>secondary.filter(s => !ids.has(s.id))\<close>, each stopping at the first exception.
\<close>

datatype entry = Null | Object TerminalShortcutConfig

datatype jsError = TypeError

fun readId :: "entry \<Rightarrow> jsError + string" where
  "readId Null = Inl TypeError"
| "readId (Object s) = Inr (ident s)"

fun mapIds :: "entry list \<Rightarrow> jsError + string list" where
  "mapIds [] = Inr []"
| "mapIds (e # es) =
     (case readId e of
        Inl err \<Rightarrow> Inl err
      | Inr i \<Rightarrow> (case mapIds es of Inl err \<Rightarrow> Inl err | Inr is \<Rightarrow> Inr (i # is)))"

fun filterExtras :: "string set \<Rightarrow> entry list \<Rightarrow> jsError + entry list" where
  "filterExtras ids [] = Inr []"
| "filterExtras ids (e # es) =
     (case readId e of
        Inl err \<Rightarrow> Inl err
      | Inr i \<Rightarrow>
          (case filterExtras ids es of
             Inl err \<Rightarrow> Inl err
           | Inr extras \<Rightarrow> Inr (if i \<notin> ids then e # extras else extras)))"

definition mergeEntries :: "entry list \<Rightarrow> entry list \<Rightarrow> jsError + entry list" where
  "mergeEntries primary secondary =
     (case mapIds primary of
        Inl err \<Rightarrow> Inl err
      | Inr is \<Rightarrow>
          (case filterExtras (set is) secondary of
             Inl err \<Rightarrow> Inl err
           | Inr extras \<Rightarrow> Inr (primary @ extras)))"

section \<open>Identifier uniqueness helper\<close>

text \<open>
  The template literal \<^verbatim>\<open>`${base}-${i}`\<close> prints the counter in decimal. The counter
  is a natural number here; in the source it is a double that starts at 1 and grows by 1,
  which is exact below \<open>2^53\<close>, and the loop never counts beyond the number of elements
  of the set (lemma \<open>suffixLoop_le\<close> below).
\<close>

definition digitChars :: string where
  "digitChars = ''0123456789''"

fun toString :: "nat \<Rightarrow> string" where
  "toString n =
     (if n < 10 then [digitChars ! n]
      else toString (n div 10) @ [digitChars ! (n mod 10)])"

definition suffixedId :: "string \<Rightarrow> nat \<Rightarrow> string" where
  "suffixedId base i = base @ ''-'' @ toString i"

lemma digitChars_inj:
  assumes "d < 10" and "e < 10" and "digitChars ! d = digitChars ! e"
  shows "d = e"
proof -
  have "distinct digitChars" and "length digitChars = 10"
    by (simp_all add: digitChars_def)
  with assms show ?thesis
    by (simp add: nth_eq_iff_index_eq)
qed

lemma toString_not_Nil: "toString n \<noteq> []"
  by (subst toString.simps) simp

lemma toString_last: "last (toString n) = digitChars ! (n mod 10)"
  by (subst toString.simps) simp

lemma toString_butlast:
  "butlast (toString n) = (if n < 10 then [] else toString (n div 10))"
  by (subst toString.simps) simp

lemma toString_inj: "toString n = toString m \<Longrightarrow> n = m"
proof (induction n arbitrary: m rule: less_induct)
  case (less n)
  from less.prems have "last (toString n) = last (toString m)"
    by simp
  then have "digitChars ! (n mod 10) = digitChars ! (m mod 10)"
    by (simp only: toString_last)
  then have units: "n mod 10 = m mod 10"
    by (rule digitChars_inj [rotated 2]) simp_all
  from less.prems have "butlast (toString n) = butlast (toString m)"
    by simp
  then have rest:
    "(if n < 10 then [] else toString (n div 10)) =
     (if m < 10 then [] else toString (m div 10))"
    by (simp only: toString_butlast)
  show ?case
  proof (cases "n < 10")
    case True
    with rest have "m < 10"
      by (auto simp: toString_not_Nil split: if_splits)
    with True units show ?thesis by simp
  next
    case False
    with rest have big: "\<not> m < 10" and eq: "toString (n div 10) = toString (m div 10)"
      using toString_not_Nil [of "n div 10"] by (auto split: if_splits)
    from False have "n div 10 < n" by simp
    then have "n div 10 = m div 10"
      using eq by (rule less.IH)
    with units show ?thesis
      by (metis div_mult_mod_eq)
  qed
qed

lemma suffixedId_inj: "suffixedId base i = suffixedId base j \<Longrightarrow> i = j"
  by (simp add: suffixedId_def toString_inj)

lemma finite_suffixes: "finite {k. suffixedId base k |\<in>| existing}"
proof -
  have "inj (suffixedId base)"
    by (rule injI) (rule suffixedId_inj)
  then have "finite (suffixedId base -` fset existing)"
    by (rule finite_vimageI [rotated]) simp
  moreover have "{k. suffixedId base k |\<in>| existing} = suffixedId base -` fset existing"
    by auto
  ultimately show ?thesis by simp
qed

text \<open>
  \<^verbatim>\<open>while (existing.has(`${base}-${i}`)) i++;\<close> as a recursion on the counter. It
  terminates because the set is finite and distinct counters print differently: each
  turn leaves one element of the set fewer among the ids still ahead.
\<close>

function suffixLoop :: "string \<Rightarrow> string fset \<Rightarrow> nat \<Rightarrow> nat" where
  "suffixLoop base existing i =
     (if suffixedId base i |\<in>| existing then suffixLoop base existing (Suc i) else i)"
  by pat_completeness auto
termination
proof (relation "measure (\<lambda>(base, existing, i). card {k. i \<le> k \<and> suffixedId base k |\<in>| existing})")
  show "wf (measure (\<lambda>(base, existing, i). card {k. i \<le> k \<and> suffixedId base k |\<in>| existing}))"
    by simp
next
  fix base :: string and existing :: "string fset" and i :: nat
  assume mem: "suffixedId base i |\<in>| existing"
  have fin: "finite {k. i \<le> k \<and> suffixedId base k |\<in>| existing}"
    by (rule finite_subset [OF _ finite_suffixes [of base existing]]) auto
  have "i \<in> {k. i \<le> k \<and> suffixedId base k |\<in>| existing}"
    and "i \<notin> {k. Suc i \<le> k \<and> suffixedId base k |\<in>| existing}"
    and "{k. Suc i \<le> k \<and> suffixedId base k |\<in>| existing}
          \<subseteq> {k. i \<le> k \<and> suffixedId base k |\<in>| existing}"
    using mem by auto
  then have "{k. Suc i \<le> k \<and> suffixedId base k |\<in>| existing}
          \<subset> {k. i \<le> k \<and> suffixedId base k |\<in>| existing}"
    by blast
  then have "card {k. Suc i \<le> k \<and> suffixedId base k |\<in>| existing}
               < card {k. i \<le> k \<and> suffixedId base k |\<in>| existing}"
    using fin by (rule psubset_card_mono [rotated])
  then show "((base, existing, Suc i), (base, existing, i))
      \<in> measure (\<lambda>(base, existing, i). card {k. i \<le> k \<and> suffixedId base k |\<in>| existing})"
    by simp
qed

definition makeUniqueId :: "string \<Rightarrow> string fset \<Rightarrow> string" where
  "makeUniqueId base existing =
     (if base |\<notin>| existing then base
      else suffixedId base (suffixLoop base existing 1))"

text \<open>
  The same loop with a bound on the number of tests of the loop condition: \<open>None\<close> when
  the bound is used up before the loop leaves.
\<close>

fun suffixLoopFuel :: "nat \<Rightarrow> string \<Rightarrow> string fset \<Rightarrow> nat \<Rightarrow> nat option" where
  "suffixLoopFuel 0 base existing i = None"
| "suffixLoopFuel (Suc fuel) base existing i =
     (if suffixedId base i |\<in>| existing then suffixLoopFuel fuel base existing (Suc i)
      else Some i)"

declare suffixLoop.simps [simp del]
declare toString.simps [simp del]

section \<open>Shortcut runner\<close>

text \<open>
  The host objects the runner touches. \<^verbatim>\<open>vscode.TerminalOptions\<close> as
  \<^verbatim>\<open>runShortcut\<close> fills it in (name, cwd, env, location), and a terminal session: the
  options it was created with and the texts sent to it so far, each with the
  \<^verbatim>\<open>addNewLine\<close> flag of \<^verbatim>\<open>sendText\<close>. The display name of a session
  (\<^verbatim>\<open>t.name\<close>) is the name in its options.
\<close>

datatype ViewColumn = Active | Two | Three

datatype TerminalLocation = Panel | EditorLocation ViewColumn bool

record TerminalOptions =
  name :: string
  optCwd :: "string option"
  optEnv :: "EnvMap option"
  optLocation :: TerminalLocation

record Terminal =
  options :: TerminalOptions
  sent :: "(string \<times> bool) list"

text \<open>
  The state the commands read and write: the module variable \<^verbatim>\<open>shortcuts\<close> (the last
  resolved list), \<^verbatim>\<open>vscode.window.terminals\<close> (sessions are referred to by their
  position in it), the session that \<^verbatim>\<open>show\<close> revealed last, the session that holds the
  keyboard focus (\<open>None\<close>: the focus is elsewhere, in an editor or a side bar), and the error
  notices shown by \<^verbatim>\<open>showErrorMessage\<close>.
\<close>

record Host =
  shortcuts :: "TerminalShortcutConfig list"
  terminals :: "Terminal list"
  revealed :: "nat option"
  focused :: "nat option"
  errorMessages :: "string list"

text \<open>
  The host's side of the calls, after the declarations of the VS Code API (the host is not
  part of the repository):
  \<^item> \<^verbatim>\<open>createTerminal(options)\<close> adds a session to \<^verbatim>\<open>window.terminals\<close> and returns
    it; a session placed in the editor area takes the focus unless its location options
    say \<^verbatim>\<open>preserveFocus: true\<close>;
  \<^item> \<^verbatim>\<open>Terminal.show(preserveFocus?: boolean)\<close> reveals the session; when
    \<^verbatim>\<open>preserveFocus\<close> is true the session does not take the focus;
  \<^item> \<^verbatim>\<open>Terminal.sendText(text, addNewLine)\<close> sends the text to the session;
  \<^item> \<^verbatim>\<open>window.showErrorMessage(message)\<close> shows an error notice.
\<close>

definition createTerminal :: "TerminalOptions \<Rightarrow> Host \<Rightarrow> nat \<times> Host" where
  "createTerminal opts h =
     (let t = length (terminals h);
          h' = h\<lparr> terminals := terminals h @ [\<lparr> options = opts, sent = [] \<rparr>] \<rparr>
      in (t, case optLocation opts of
               Panel \<Rightarrow> h'
             | EditorLocation col preserveFocus \<Rightarrow>
                 if preserveFocus then h' else h'\<lparr> focused := Some t \<rparr>))"

definition showTerminal :: "nat \<Rightarrow> bool \<Rightarrow> Host \<Rightarrow> Host" where
  "showTerminal t preserveFocus h =
     h\<lparr> revealed := Some t,
        focused := (if preserveFocus then focused h else Some t) \<rparr>"

definition sendText :: "nat \<Rightarrow> string \<Rightarrow> bool \<Rightarrow> Host \<Rightarrow> Host" where
  "sendText t text addNewLine h =
     h\<lparr> terminals := (terminals h)
          [t := (terminals h ! t)\<lparr> sent := sent (terminals h ! t) @ [(text, addNewLine)] \<rparr>] \<rparr>"

definition showErrorMessage :: "string \<Rightarrow> Host \<Rightarrow> Host" where
  "showErrorMessage message h = h\<lparr> errorMessages := errorMessages h @ [message] \<rparr>"

text \<open>
  \<^verbatim>\<open>s.terminalName || s.label || s.id\<close>: the operator skips a left operand that is
  \<^verbatim>\<open>undefined\<close> or the empty string.
\<close>

definition targetName :: "TerminalShortcutConfig \<Rightarrow> string" where
  "targetName s =
     (case terminalName s of
        Some (c # cs) \<Rightarrow> c # cs
      | _ \<Rightarrow> (if label s \<noteq> [] then label s else ident s))"

text \<open>\<^verbatim>\<open>vscode.window.terminals.find(t => t.name === name)\<close>: the first session of that name.\<close>

fun findTerminal :: "string \<Rightarrow> Terminal list \<Rightarrow> nat option" where
  "findTerminal n [] = None"
| "findTerminal n (t # ts) =
     (if name (options t) = n then Some 0 else map_option Suc (findTerminal n ts))"

fun toViewColumn :: "int option \<Rightarrow> ViewColumn" where
  "toViewColumn n = (if n = Some 2 then Two else if n = Some 3 then Three else Active)"

definition resolveTerminalLocation :: "TerminalShortcutConfig \<Rightarrow> TerminalLocation" where
  "resolveTerminalLocation s =
     (if location s = Some ''panel'' then Panel
      else EditorLocation (toViewColumn (viewColumn s)) (focus s = Some False))"

text \<open>
  \<^verbatim>\<open>runShortcut\<close>. The local \<^verbatim>\<open>focus\<close> of the source is \<open>focusFlag\<close>; it is passed
  to \<^verbatim>\<open>terminal.show\<close>, whose parameter is \<^verbatim>\<open>preserveFocus\<close>.
\<close>

definition runShortcut :: "TerminalShortcutConfig \<Rightarrow> Host \<Rightarrow> Host" where
  "runShortcut s h =
     (let n = targetName s;
          found = (if reuse s \<noteq> Some False then findTerminal n (terminals h) else None);
          (terminal, h1) =
            (case found of
               Some t \<Rightarrow> (t, h)
             | None \<Rightarrow>
                 createTerminal
                   \<lparr> name = n, optCwd = cwd s, optEnv = env s,
                     optLocation = resolveTerminalLocation s \<rparr> h);
          focusFlag = (focus s \<noteq> Some False);
          h2 = showTerminal terminal focusFlag h1
      in sendText terminal (command s) True h2)"

section \<open>The run-by-id command\<close>

text \<open>
  \<^verbatim>\<open>ensureLoaded\<close> reloads only when \<^verbatim>\<open>shortcuts\<close> is not an array. The variable is
  initialised with \<^verbatim>\<open>[]\<close> and only ever assigned the result of \<^verbatim>\<open>loadShortcuts\<close>, an
  array built by \<^verbatim>\<open>arr.map\<close>; here it is a list, so the guard is false and nothing is
  loaded.
\<close>

definition ensureLoaded :: "Host \<Rightarrow> Host" where
  "ensureLoaded h = h"

text \<open>
  The handler registered for \<^verbatim>\<open>terminalShortcuts.runShortcut\<close>. Its argument is optional;
  \<^verbatim>\<open>if (!id) return;\<close> leaves on \<^verbatim>\<open>undefined\<close> and on the empty string.
\<close>

definition runShortcutCommand :: "string option \<Rightarrow> Host \<Rightarrow> Host" where
  "runShortcutCommand idArg h =
     (let h1 = ensureLoaded h
      in case idArg of
           None \<Rightarrow> h1
         | Some i \<Rightarrow>
             if i = [] then h1
             else (case find (\<lambda>x. ident x = i) (shortcuts h1) of
                     Some s \<Rightarrow> runShortcut s h1
                   | None \<Rightarrow> showErrorMessage (''Raccourci introuvable: '' @ i) h1))"

section \<open>Inputs used in the examples\<close>

text \<open>
  \<open>shortcut i l c\<close> is a record that specifies the three required fields and nothing else.
  \<open>projectWorkspace F S m\<close> is a workspace whose primary file parses to a document with
  the commands \<open>F\<close>, with the settings list \<open>S\<close> and the merge setting \<open>m\<close>;
  \<open>brokenWorkspace S m\<close> is one whose primary file does not parse and whose fallback file
  cannot be read. \<open>noDocument c\<close> says that a candidate file yields no document: reading
  or parsing it throws, or it parses to something that is not an object.
\<close>

definition shortcut :: "string \<Rightarrow> string \<Rightarrow> string \<Rightarrow> TerminalShortcutConfig" where
  "shortcut i l c =
     \<lparr> ident = i, label = l, command = c, terminalName = None, cwd = None, env = None,
       reuse = None, focus = None, statusBar = None, codicon = None, statusBarText = None,
       icon = None, location = None, viewColumn = None \<rparr>"

definition projectWorkspace ::
  "TerminalShortcutConfig list \<Rightarrow> TerminalShortcutConfig list \<Rightarrow> bool option \<Rightarrow> Workspace" where
  "projectWorkspace F S m =
     \<lparr> hasFolder = True, primaryFile = Inr (Document \<lparr> commands = Some F \<rparr>),
       fallbackFile = Inl ReadFailed, settingsCommands = Some S,
       mergeUserAndWorkspace = m \<rparr>"

definition noDocument :: "error + parsed \<Rightarrow> bool" where
  "noDocument c = (case c of Inl e \<Rightarrow> True | Inr NotAnObject \<Rightarrow> True | Inr (Document d) \<Rightarrow> False)"

definition brokenWorkspace :: "TerminalShortcutConfig list \<Rightarrow> bool option \<Rightarrow> Workspace" where
  "brokenWorkspace S m =
     \<lparr> hasFolder = True, primaryFile = Inl SyntaxError, fallbackFile = Inl ReadFailed,
       settingsCommands = Some S, mergeUserAndWorkspace = m \<rparr>"

text \<open>
  \<open>buildShortcut\<close> is the first record of the sample file that
  \<^verbatim>\<open>openOrCreateConfig\<close> writes. \<open>hostWithBuild\<close> is a host in which that record is the
  resolved list, one session named \<open>Build\<close> is open, and the keyboard focus is not in a
  terminal.
\<close>

definition buildShortcut :: TerminalShortcutConfig where
  "buildShortcut =
     \<lparr> ident = ''build'', label = ''Build'', command = ''npm run build'',
       terminalName = Some ''Build'', cwd = None, env = None,
       reuse = Some True, focus = Some True, statusBar = Some True,
       codicon = Some ''tools'', statusBarText = None,
       icon = Some \<lparr> light = Some ''images/light/build.svg'',
                     dark = Some ''images/dark/build.svg'' \<rparr>,
       location = Some ''editor'', viewColumn = None \<rparr>"

definition buildSession :: Terminal where
  "buildSession =
     \<lparr> options = \<lparr> name = ''Build'', optCwd = None, optEnv = None, optLocation = Panel \<rparr>,
       sent = [] \<rparr>"

definition hostWithBuild :: Host where
  "hostWithBuild =
     \<lparr> shortcuts = [buildShortcut], terminals = [buildSession], revealed = None,
       focused = None, errorMessages = [] \<rparr>"

section \<open>Facts about the resolver\<close>

lemma ident_normalizeShortcut: "ident (normalizeShortcut s) = ident s"
  by (simp add: normalizeShortcut_def)

lemma map_ident_normalizeShortcuts: "map ident (normalizeShortcuts xs) = map ident xs"
  by (simp add: normalizeShortcuts_def ident_normalizeShortcut)

lemma normalizeShortcuts_append:
  "normalizeShortcuts (xs @ ys) = normalizeShortcuts xs @ normalizeShortcuts ys"
  by (simp add: normalizeShortcuts_def)

lemma length_normalizeShortcuts: "length (normalizeShortcuts xs) = length xs"
  by (simp add: normalizeShortcuts_def)

lemma loadShortcuts_file:
  assumes "readFileConfig w = Some config" and "commands config = Some F"
  shows "loadShortcuts w =
    (if mergeUserAndWorkspace w = Some False then normalizeShortcuts F
     else normalizeShortcuts
        (mergeShortcuts F (case settingsCommands w of None \<Rightarrow> [] | Some cs \<Rightarrow> cs)))"
  using assms by (auto simp: loadShortcuts_def Let_def split: option.splits)

lemma loadShortcuts_settings:
  assumes "readFileConfig w = None \<or> (\<exists>config. readFileConfig w = Some config \<and> commands config = None)"
  shows "loadShortcuts w =
    normalizeShortcuts (case settingsCommands w of None \<Rightarrow> [] | Some cs \<Rightarrow> cs)"
  using assms by (auto simp: loadShortcuts_def Let_def split: option.splits)

lemma readFileConfig_projectWorkspace:
  "readFileConfig (projectWorkspace F S m) = Some \<lparr> commands = Some F \<rparr>"
  by (simp add: readFileConfig_def projectWorkspace_def)

lemma projectWorkspace_sel:
  "settingsCommands (projectWorkspace F S m) = Some S"
  "mergeUserAndWorkspace (projectWorkspace F S m) = m"
  by (simp_all add: projectWorkspace_def)

lemma readFileConfig_noDocument:
  assumes "\<not> hasFolder w \<or> (noDocument (primaryFile w) \<and> noDocument (fallbackFile w))"
  shows "readFileConfig w = None"
  using assms
  by (auto simp: readFileConfig_def noDocument_def split: sum.splits parsed.splits)

lemma ident_shortcut: "ident (shortcut i l c) = i"
  by (simp add: shortcut_def)

lemma withDefault_not_None: "withDefault d v \<noteq> None"
  by (cases v) (simp_all add: withDefault_def)

lemma normalizeShortcut_id_iff:
  "normalizeShortcut s = s \<longleftrightarrow>
     reuse s \<noteq> None \<and> focus s \<noteq> None \<and> codicon s \<noteq> None \<and> location s \<noteq> None"
proof
  assume eq: "normalizeShortcut s = s"
  have "reuse (normalizeShortcut s) \<noteq> None" "focus (normalizeShortcut s) \<noteq> None"
    "codicon (normalizeShortcut s) \<noteq> None" "location (normalizeShortcut s) \<noteq> None"
    by (simp_all add: normalizeShortcut_def withDefault_not_None)
  then show "reuse s \<noteq> None \<and> focus s \<noteq> None \<and> codicon s \<noteq> None \<and> location s \<noteq> None"
    unfolding eq by blast
next
  assume "reuse s \<noteq> None \<and> focus s \<noteq> None \<and> codicon s \<noteq> None \<and> location s \<noteq> None"
  then show "normalizeShortcut s = s"
    by (auto simp: normalizeShortcut_def withDefault_def)
qed

lemma normalizeShortcuts_id_iff:
  "normalizeShortcuts xs = xs \<longleftrightarrow>
     (\<forall>s \<in> set xs. reuse s \<noteq> None \<and> focus s \<noteq> None \<and>
                      codicon s \<noteq> None \<and> location s \<noteq> None)"
  unfolding normalizeShortcuts_def
  by (induction xs) (simp_all add: normalizeShortcut_id_iff)

lemma ids_mergeShortcuts:
  "map ident (mergeShortcuts F S) =
     map ident F @ map ident (filter (\<lambda>s. ident s \<notin> set (map ident F)) S)"
  by (simp add: mergeShortcuts_def Let_def)

lemma extras_disjoint:
  "set (map ident F) \<inter> set (map ident (filter (\<lambda>s. ident s \<notin> set (map ident F)) S)) = {}"
  by (auto simp: image_iff)

lemma distinct_mergeShortcuts_iff:
  "distinct (map ident (mergeShortcuts F S)) \<longleftrightarrow>
     distinct (map ident F) \<and>
     distinct (map ident (filter (\<lambda>s. ident s \<notin> set (map ident F)) S))"
  unfolding ids_mergeShortcuts distinct_append using extras_disjoint [of F S] by blast

lemma file_record_wins:
  assumes "r \<in> set (normalizeShortcuts (mergeShortcuts F S))"
    and "ident r \<in> set (map ident F)"
  shows "r \<in> set (normalizeShortcuts F)"
  using assms
  by (auto simp: normalizeShortcuts_def mergeShortcuts_def Let_def ident_normalizeShortcut)

lemma jsError_eq: "(err :: jsError) = TypeError"
  by (cases err) simp

lemma mapIds_records: "mapIds (map Object F) = Inr (map ident F)"
  by (induction F) simp_all

lemma filterExtras_records:
  "filterExtras ids (map Object S) = Inr (map Object (filter (\<lambda>s. ident s \<notin> ids) S))"
  by (induction S) simp_all

lemma mapIds_null: "Null \<in> set es \<Longrightarrow> mapIds es = Inl TypeError"
proof (induction es)
  case Nil
  then show ?case by simp
next
  case (Cons e es)
  then show ?case
    by (cases e) (auto split: sum.splits)
qed

lemma filterExtras_null: "Null \<in> set es \<Longrightarrow> filterExtras ids es = Inl TypeError"
proof (induction es)
  case Nil
  then show ?case by simp
next
  case (Cons e es)
  then show ?case
    by (cases e) (auto split: sum.splits)
qed

lemma mergeEntries_records:
  "mergeEntries (map Object F) (map Object S) = Inr (map Object (mergeShortcuts F S))"
  by (simp add: mergeEntries_def mapIds_records filterExtras_records mergeShortcuts_def)

lemma mergeEntries_null:
  assumes "Null \<in> set primary \<or> Null \<in> set secondary"
  shows "mergeEntries primary secondary = Inl TypeError"
  using assms
  by (auto simp: mergeEntries_def mapIds_null filterExtras_null jsError_eq [of "_ :: jsError"]
      split: sum.splits)

lemma mergeEntries_null_example: "mergeEntries [Null] [] = Inl TypeError"
  by (simp add: mergeEntries_def)

section \<open>Claims about the config resolver\<close>

text \<open>
  C1, as the code has it. When the per-project file is the primary list \<open>F\<close> and the merge
  flag is enabled (unset or true), the resolved list is \<open>F\<close> with the defaults applied
  followed by those records of the settings list \<open>S\<close> whose id does not occur in \<open>F\<close>, in
  the order of \<open>S\<close> and with the defaults applied: its first \<open>length F\<close> entries are
  \<open>normalizeShortcuts F\<close>, its ids are the ids of \<open>F\<close> followed by the ids of \<open>S\<close> that
  are not ids of \<open>F\<close>, and no entry after the first \<open>length F\<close> has an id of \<open>F\<close>, so
  for an id that both sources define only the file's records survive.
\<close>

theorem loadShortcuts_merge:
  assumes "readFileConfig w = Some config" and "commands config = Some F"
    and "mergeUserAndWorkspace w \<noteq> Some False"
    and "S = (case settingsCommands w of None \<Rightarrow> [] | Some cs \<Rightarrow> cs)"
  shows "loadShortcuts w =
           normalizeShortcuts F @
           normalizeShortcuts (filter (\<lambda>s. ident s \<notin> set (map ident F)) S) \<and>
         take (length F) (loadShortcuts w) = normalizeShortcuts F \<and>
         map ident (loadShortcuts w) =
           map ident F @ filter (\<lambda>i. i \<notin> set (map ident F)) (map ident S) \<and>
         (\<forall>r \<in> set (drop (length F) (loadShortcuts w)). ident r \<notin> set (map ident F))"
proof -
  have eq: "loadShortcuts w =
           normalizeShortcuts F @
           normalizeShortcuts (filter (\<lambda>s. ident s \<notin> set (map ident F)) S)"
    using assms
    by (simp add: loadShortcuts_file mergeShortcuts_def Let_def normalizeShortcuts_append)
  have t: "take (length F) (loadShortcuts w) = normalizeShortcuts F"
    by (simp add: eq length_normalizeShortcuts)
  have d: "drop (length F) (loadShortcuts w) =
     normalizeShortcuts (filter (\<lambda>s. ident s \<notin> set (map ident F)) S)"
    by (simp add: eq length_normalizeShortcuts)
  have m: "map ident (loadShortcuts w) =
           map ident F @ filter (\<lambda>i. i \<notin> set (map ident F)) (map ident S)"
    by (simp add: eq map_ident_normalizeShortcuts filter_map comp_def)
  have "set (map ident (drop (length F) (loadShortcuts w))) \<inter> set (map ident F) = {}"
    unfolding d map_ident_normalizeShortcuts by auto
  then have "\<forall>r \<in> set (drop (length F) (loadShortcuts w)). ident r \<notin> set (map ident F)"
    by auto
  with eq t m show ?thesis by blast
qed

theorem loadShortcuts_merge_witness:
  "map ident (loadShortcuts (projectWorkspace
      [shortcut ''a'' ''A'' ''file a'', shortcut ''b'' ''B'' ''file b'']
      [shortcut ''b'' ''B'' ''settings b'', shortcut ''c'' ''C'' ''settings c''] None))
     = [''a'', ''b'', ''c''] \<and>
   take 2 (loadShortcuts (projectWorkspace
      [shortcut ''a'' ''A'' ''file a'', shortcut ''b'' ''B'' ''file b'']
      [shortcut ''b'' ''B'' ''settings b'', shortcut ''c'' ''C'' ''settings c''] None))
     = normalizeShortcuts [shortcut ''a'' ''A'' ''file a'', shortcut ''b'' ''B'' ''file b'']"
proof -
  let ?F = "[shortcut ''a'' ''A'' ''file a'', shortcut ''b'' ''B'' ''file b'']"
  let ?S = "[shortcut ''b'' ''B'' ''settings b'', shortcut ''c'' ''C'' ''settings c'']"
  let ?w = "projectWorkspace ?F ?S None"
  have fileRead: "readFileConfig ?w = Some \<lparr> commands = Some ?F \<rparr>"
    by (rule readFileConfig_projectWorkspace)
  have cmds: "commands \<lparr> commands = Some ?F \<rparr> = Some ?F"
    by simp
  have flag: "mergeUserAndWorkspace ?w \<noteq> Some False"
    by (simp add: projectWorkspace_sel)
  have settings: "?S = (case settingsCommands ?w of None \<Rightarrow> [] | Some cs \<Rightarrow> cs)"
    by (simp add: projectWorkspace_sel)
  from loadShortcuts_merge [OF fileRead cmds flag settings]
  have "map ident (loadShortcuts ?w) =
          map ident ?F @ filter (\<lambda>i. i \<notin> set (map ident ?F)) (map ident ?S)"
    and "take (length ?F) (loadShortcuts ?w) = normalizeShortcuts ?F"
    by blast+
  then show ?thesis
    by (simp add: ident_shortcut numeral_2_eq_2)
qed

text \<open>
  The first \<open>length F\<close> entries are not \<open>F\<close> itself: a file record that leaves a
  defaulted field out comes back with the default filled in.
\<close>

theorem merge_keeps_file_records_counterexample:
  "readFileConfig (projectWorkspace [shortcut ''a'' ''A'' ''file a''] [] (Some True))
     = Some \<lparr> commands = Some [shortcut ''a'' ''A'' ''file a''] \<rparr> \<and>
   take (length [shortcut ''a'' ''A'' ''file a''])
     (loadShortcuts (projectWorkspace [shortcut ''a'' ''A'' ''file a''] [] (Some True)))
     \<noteq> [shortcut ''a'' ''A'' ''file a'']"
  by (simp add: loadShortcuts_def readFileConfig_projectWorkspace projectWorkspace_sel
      mergeShortcuts_def normalizeShortcuts_def normalizeShortcut_def withDefault_def
      shortcut_def)

text \<open>
  C2, as the code has it, for lists of shortcut records. A candidate file whose reading or
  parsing throws is a value (\<open>Inl\<close>) that \<^verbatim>\<open>readFileConfig\<close> catches and skips. When
  no folder is open or neither candidate yields a document, and when the document has no
  commands array, the resolved list is \<open>normalizeShortcuts S\<close> whatever the merge flag
  is. When the document's commands array is empty, the resolved list is
  \<open>normalizeShortcuts S\<close> if the merge flag is enabled and the empty list if it is
  disabled. That the resolver never throws is not part of this statement: on an array
  with a \<^verbatim>\<open>null\<close> entry the merge throws (lemma \<open>mergeEntries_null\<close>).
\<close>

theorem loadShortcuts_no_file_data:
  assumes "S = (case settingsCommands w of None \<Rightarrow> [] | Some cs \<Rightarrow> cs)"
  shows "(\<not> hasFolder w \<or> (noDocument (primaryFile w) \<and> noDocument (fallbackFile w))
            \<longrightarrow> loadShortcuts w = normalizeShortcuts S) \<and>
         (\<forall>config. readFileConfig w = Some config \<and> commands config = None
            \<longrightarrow> loadShortcuts w = normalizeShortcuts S) \<and>
         (\<forall>config. readFileConfig w = Some config \<and> commands config = Some []
            \<longrightarrow> loadShortcuts w =
                  (if mergeUserAndWorkspace w = Some False then [] else normalizeShortcuts S))"
proof (intro conjI allI impI)
  assume "\<not> hasFolder w \<or> (noDocument (primaryFile w) \<and> noDocument (fallbackFile w))"
  then have "readFileConfig w = None"
    by (rule readFileConfig_noDocument)
  then show "loadShortcuts w = normalizeShortcuts S"
    using assms by (simp add: loadShortcuts_settings)
next
  fix config
  assume "readFileConfig w = Some config \<and> commands config = None"
  then show "loadShortcuts w = normalizeShortcuts S"
    using assms by (simp add: loadShortcuts_settings)
next
  fix config
  assume "readFileConfig w = Some config \<and> commands config = Some []"
  then have "loadShortcuts w =
    (if mergeUserAndWorkspace w = Some False then normalizeShortcuts []
     else normalizeShortcuts (mergeShortcuts [] S))"
    using assms by (simp add: loadShortcuts_file)
  then show "loadShortcuts w =
      (if mergeUserAndWorkspace w = Some False then [] else normalizeShortcuts S)"
    by (simp add: mergeShortcuts_def normalizeShortcuts_def)
qed

theorem loadShortcuts_no_file_data_witness:
  "loadShortcuts (brokenWorkspace [shortcut ''c'' ''C'' ''settings c''] (Some False))
     = normalizeShortcuts [shortcut ''c'' ''C'' ''settings c''] \<and>
   loadShortcuts
     \<lparr> hasFolder = True, primaryFile = Inr NotAnObject,
       fallbackFile = Inr (Document \<lparr> commands = None \<rparr>),
       settingsCommands = Some [shortcut ''c'' ''C'' ''settings c''],
       mergeUserAndWorkspace = Some False \<rparr>
     = normalizeShortcuts [shortcut ''c'' ''C'' ''settings c''] \<and>
   loadShortcuts (projectWorkspace [] [shortcut ''c'' ''C'' ''settings c''] (Some True))
     = normalizeShortcuts [shortcut ''c'' ''C'' ''settings c''] \<and>
   loadShortcuts (projectWorkspace [] [shortcut ''c'' ''C'' ''settings c''] (Some False)) = []"
proof -
  let ?S = "[shortcut ''c'' ''C'' ''settings c'']"
  let ?w2 = "\<lparr> hasFolder = True, primaryFile = Inr NotAnObject,
       fallbackFile = Inr (Document \<lparr> commands = None \<rparr>),
       settingsCommands = Some ?S, mergeUserAndWorkspace = Some False \<rparr>"
  have "loadShortcuts (brokenWorkspace ?S (Some False)) = normalizeShortcuts ?S"
    using loadShortcuts_no_file_data [of ?S "brokenWorkspace ?S (Some False)"]
    by (simp add: brokenWorkspace_def noDocument_def)
  moreover have "readFileConfig ?w2 = Some \<lparr> commands = None \<rparr>"
    by (simp add: readFileConfig_def)
  then have "loadShortcuts ?w2 = normalizeShortcuts ?S"
    using loadShortcuts_no_file_data [of ?S ?w2] by simp
  moreover have "loadShortcuts (projectWorkspace [] ?S (Some True)) = normalizeShortcuts ?S"
    using loadShortcuts_no_file_data [of ?S "projectWorkspace [] ?S (Some True)"]
    by (simp add: readFileConfig_projectWorkspace projectWorkspace_sel)
  moreover have "loadShortcuts (projectWorkspace [] ?S (Some False)) = []"
    using loadShortcuts_no_file_data [of ?S "projectWorkspace [] ?S (Some False)"]
    by (simp add: readFileConfig_projectWorkspace projectWorkspace_sel)
  ultimately show ?thesis by blast
qed

text \<open>
  With an empty commands array and the merge flag disabled the settings list is not used.
\<close>

theorem empty_commands_counterexample:
  "readFileConfig (projectWorkspace [] [shortcut ''c'' ''C'' ''settings c''] (Some False))
     = Some \<lparr> commands = Some [] \<rparr> \<and>
   loadShortcuts (projectWorkspace [] [shortcut ''c'' ''C'' ''settings c''] (Some False))
     \<noteq> normalizeShortcuts [shortcut ''c'' ''C'' ''settings c'']"
  by (simp add: loadShortcuts_def readFileConfig_projectWorkspace projectWorkspace_sel
      normalizeShortcuts_def)

text \<open>
  C3, as the code has it. Neither source is checked for ids that repeat inside it, and
  \<^verbatim>\<open>mergeShortcuts\<close> only drops a settings record whose id occurs in the file. When the
  file is the primary list \<open>F\<close>: every resolved record whose id is an id of \<open>F\<close> is one
  of the file's records (with the defaults applied), whatever the lists and the flag are; and
  the ids of the resolved list are pairwise distinct exactly when the ids of \<open>F\<close> are and,
  if the merge flag is enabled, the ids of the records of \<open>S\<close> whose id is not in \<open>F\<close>
  are. When the file supplies no list, the ids of the resolved list are pairwise distinct
  exactly when the ids of \<open>S\<close> are. So the ids of the resolved list are pairwise distinct
  whenever the ids of \<open>F\<close> are (if the file is the primary list) and the ids of \<open>S\<close> are,
  and the ids of \<open>S\<close> do not matter where \<open>S\<close> is not read: the file is the primary list
  and the merge flag is disabled.
\<close>

theorem loadShortcuts_distinct:
  assumes "S = (case settingsCommands w of None \<Rightarrow> [] | Some cs \<Rightarrow> cs)"
  shows
    "(\<forall>config F. readFileConfig w = Some config \<and> commands config = Some F \<longrightarrow>
        (\<forall>r \<in> set (loadShortcuts w).
           ident r \<in> set (map ident F) \<longrightarrow> r \<in> set (normalizeShortcuts F)) \<and>
        (distinct (map ident (loadShortcuts w)) \<longleftrightarrow>
           distinct (map ident F) \<and>
           (mergeUserAndWorkspace w \<noteq> Some False \<longrightarrow>
              distinct (map ident (filter (\<lambda>s. ident s \<notin> set (map ident F)) S))))) \<and>
     (readFileConfig w = None \<or>
      (\<exists>config. readFileConfig w = Some config \<and> commands config = None) \<longrightarrow>
        (distinct (map ident (loadShortcuts w)) \<longleftrightarrow> distinct (map ident S))) \<and>
     ((\<forall>config F. readFileConfig w = Some config \<and> commands config = Some F
          \<longrightarrow> distinct (map ident F)) \<and>
      (((\<exists>config F. readFileConfig w = Some config \<and> commands config = Some F) \<and>
        mergeUserAndWorkspace w = Some False) \<or> distinct (map ident S))
        \<longrightarrow> distinct (map ident (loadShortcuts w)))"
proof -
  have primary: "(\<forall>r \<in> set (loadShortcuts w).
           ident r \<in> set (map ident F) \<longrightarrow> r \<in> set (normalizeShortcuts F)) \<and>
        (distinct (map ident (loadShortcuts w)) \<longleftrightarrow>
           distinct (map ident F) \<and>
           (mergeUserAndWorkspace w \<noteq> Some False \<longrightarrow>
              distinct (map ident (filter (\<lambda>s. ident s \<notin> set (map ident F)) S))))"
    if f: "readFileConfig w = Some config \<and> commands config = Some F" for config F
  proof (cases "mergeUserAndWorkspace w = Some False")
    case True
    with f have "loadShortcuts w = normalizeShortcuts F"
      by (simp add: loadShortcuts_file)
    with True show ?thesis
      by (simp add: map_ident_normalizeShortcuts)
  next
    case False
    with f assms have eq: "loadShortcuts w = normalizeShortcuts (mergeShortcuts F S)"
      by (simp add: loadShortcuts_file)
    have "\<forall>r \<in> set (loadShortcuts w).
           ident r \<in> set (map ident F) \<longrightarrow> r \<in> set (normalizeShortcuts F)"
      unfolding eq using file_record_wins [of _ F S] by blast
    moreover have "distinct (map ident (loadShortcuts w)) \<longleftrightarrow>
           distinct (map ident F) \<and>
           distinct (map ident (filter (\<lambda>s. ident s \<notin> set (map ident F)) S))"
      unfolding eq map_ident_normalizeShortcuts by (rule distinct_mergeShortcuts_iff)
    ultimately show ?thesis
      using False by blast
  qed
  have secondary: "distinct (map ident (loadShortcuts w)) \<longleftrightarrow> distinct (map ident S)"
    if "readFileConfig w = None \<or>
        (\<exists>config. readFileConfig w = Some config \<and> commands config = None)"
    using that assms by (simp add: loadShortcuts_settings map_ident_normalizeShortcuts)
  have sufficient: "distinct (map ident (loadShortcuts w))"
    if ids: "(\<forall>config F. readFileConfig w = Some config \<and> commands config = Some F
          \<longrightarrow> distinct (map ident F)) \<and>
      (((\<exists>config F. readFileConfig w = Some config \<and> commands config = Some F) \<and>
        mergeUserAndWorkspace w = Some False) \<or> distinct (map ident S))"
  proof (cases "\<exists>config F. readFileConfig w = Some config \<and> commands config = Some F")
    case True
    then obtain config F where f: "readFileConfig w = Some config \<and> commands config = Some F"
      by blast
    with ids have dF: "distinct (map ident F)"
      by blast
    have "distinct (map ident (filter (\<lambda>s. ident s \<notin> set (map ident F)) S))"
      if "distinct (map ident S)"
      using that by (rule distinct_map_filter)
    with ids dF primary [OF f] show ?thesis
      by blast
  next
    case False
    then have none: "readFileConfig w = None \<or>
        (\<exists>config. readFileConfig w = Some config \<and> commands config = None)"
      by (cases "readFileConfig w") auto
    from False ids have "distinct (map ident S)"
      by blast
    with secondary [OF none] show ?thesis
      by blast
  qed
  from primary secondary sufficient show ?thesis
    by blast
qed

theorem loadShortcuts_distinct_witness:
  "distinct (map ident (loadShortcuts (projectWorkspace
      [shortcut ''a'' ''A'' ''file a'', shortcut ''b'' ''B'' ''file b'']
      [shortcut ''b'' ''B'' ''settings b'', shortcut ''c'' ''C'' ''settings c''] (Some True)))) \<and>
   \<not> (\<exists>r \<in> set (loadShortcuts (projectWorkspace
      [shortcut ''a'' ''A'' ''file a'', shortcut ''b'' ''B'' ''file b'']
      [shortcut ''b'' ''B'' ''settings b'', shortcut ''c'' ''C'' ''settings c''] (Some True))).
        ident r = ''b'' \<and> command r = ''settings b'') \<and>
   distinct (map ident (loadShortcuts (projectWorkspace
      [shortcut ''a'' ''A'' ''file a'']
      [shortcut ''c'' ''C'' ''one'', shortcut ''c'' ''C'' ''two''] (Some False)))) \<and>
   \<not> distinct (map ident (loadShortcuts (projectWorkspace
      [shortcut ''a'' ''A'' ''file a'']
      [shortcut ''c'' ''C'' ''one'', shortcut ''c'' ''C'' ''two''] (Some True)))) \<and>
   distinct (map ident (loadShortcuts (brokenWorkspace
      [shortcut ''b'' ''B'' ''settings b'', shortcut ''c'' ''C'' ''settings c''] None)))"
proof -
  let ?F = "[shortcut ''a'' ''A'' ''file a'', shortcut ''b'' ''B'' ''file b'']"
  let ?S = "[shortcut ''b'' ''B'' ''settings b'', shortcut ''c'' ''C'' ''settings c'']"
  let ?G = "[shortcut ''a'' ''A'' ''file a'']"
  let ?T = "[shortcut ''c'' ''C'' ''one'', shortcut ''c'' ''C'' ''two'']"
  let ?w = "projectWorkspace ?F ?S (Some True)"
  have settings: "?S = (case settingsCommands ?w of None \<Rightarrow> [] | Some cs \<Rightarrow> cs)"
    by (simp add: projectWorkspace_sel)
  have fileRead: "readFileConfig ?w = Some \<lparr> commands = Some ?F \<rparr> \<and>
      commands \<lparr> commands = Some ?F \<rparr> = Some ?F"
    by (simp add: readFileConfig_projectWorkspace)
  from loadShortcuts_distinct [OF settings] fileRead
  have wins: "\<forall>r \<in> set (loadShortcuts ?w).
      ident r \<in> set (map ident ?F) \<longrightarrow> r \<in> set (normalizeShortcuts ?F)"
    and iff: "distinct (map ident (loadShortcuts ?w)) \<longleftrightarrow>
           distinct (map ident ?F) \<and>
           (mergeUserAndWorkspace ?w \<noteq> Some False \<longrightarrow>
              distinct (map ident (filter (\<lambda>s. ident s \<notin> set (map ident ?F)) ?S)))"
    by blast+
  from iff have d1: "distinct (map ident (loadShortcuts ?w))"
    by (simp add: ident_shortcut)
  from wins have "\<forall>r \<in> set (loadShortcuts ?w). ident r = ''b'' \<longrightarrow> command r = ''file b''"
    by (auto simp: ident_shortcut normalizeShortcuts_def normalizeShortcut_def shortcut_def)
  then have d2: "\<not> (\<exists>r \<in> set (loadShortcuts ?w). ident r = ''b'' \<and> command r = ''settings b'')"
    by auto
  let ?off = "projectWorkspace ?G ?T (Some False)"
  have "?T = (case settingsCommands ?off of None \<Rightarrow> [] | Some cs \<Rightarrow> cs)"
    by (simp add: projectWorkspace_sel)
  from loadShortcuts_distinct [OF this]
  have d3: "distinct (map ident (loadShortcuts ?off))"
    by (simp add: readFileConfig_projectWorkspace projectWorkspace_sel ident_shortcut)
  let ?on = "projectWorkspace ?G ?T (Some True)"
  have "?T = (case settingsCommands ?on of None \<Rightarrow> [] | Some cs \<Rightarrow> cs)"
    by (simp add: projectWorkspace_sel)
  from loadShortcuts_distinct [OF this]
  have d4: "\<not> distinct (map ident (loadShortcuts ?on))"
    by (simp add: readFileConfig_projectWorkspace projectWorkspace_sel ident_shortcut)
  let ?none = "brokenWorkspace ?S None"
  have "?S = (case settingsCommands ?none of None \<Rightarrow> [] | Some cs \<Rightarrow> cs)"
    by (simp add: brokenWorkspace_def)
  from loadShortcuts_distinct [OF this]
  have d5: "distinct (map ident (loadShortcuts ?none))"
    by (simp add: readFileConfig_def brokenWorkspace_def ident_shortcut)
  from d1 d2 d3 d4 d5 show ?thesis
    by blast
qed

text \<open>
  A settings list that repeats an id the file does not define keeps both records.
\<close>

theorem duplicate_ids_counterexample:
  "\<not> distinct (map ident (loadShortcuts (projectWorkspace
       [shortcut ''a'' ''A'' ''file a'']
       [shortcut ''c'' ''C'' ''one'', shortcut ''c'' ''C'' ''two''] None)))"
  by (simp add: loadShortcuts_def readFileConfig_projectWorkspace projectWorkspace_sel
      mergeShortcuts_def map_ident_normalizeShortcuts ident_shortcut)

text \<open>
  C4, as the code has it. When the file is the primary list \<open>F\<close>, \<open>F\<close> is not empty and
  the merge flag is disabled, the resolved list is \<open>normalizeShortcuts F\<close>, in which the
  settings list does not occur; it is \<open>F\<close> itself exactly when every record of \<open>F\<close>
  specifies the four defaulted fields.
\<close>

theorem loadShortcuts_no_merge:
  assumes "readFileConfig w = Some config" and "commands config = Some F" and "F \<noteq> []"
    and "mergeUserAndWorkspace w = Some False"
  shows "loadShortcuts w = normalizeShortcuts F \<and>
         (loadShortcuts w = F \<longleftrightarrow>
            (\<forall>s \<in> set F. reuse s \<noteq> None \<and> focus s \<noteq> None \<and>
                            codicon s \<noteq> None \<and> location s \<noteq> None))"
proof -
  have "loadShortcuts w = normalizeShortcuts F"
    using assms by (simp add: loadShortcuts_file)
  then show ?thesis
    by (simp add: normalizeShortcuts_id_iff)
qed

theorem loadShortcuts_no_merge_witness:
  "loadShortcuts (projectWorkspace [shortcut ''a'' ''A'' ''file a'']
      [shortcut ''c'' ''C'' ''settings c''] (Some False))
     = normalizeShortcuts [shortcut ''a'' ''A'' ''file a'']"
proof -
  let ?F = "[shortcut ''a'' ''A'' ''file a'']"
  let ?w = "projectWorkspace ?F [shortcut ''c'' ''C'' ''settings c''] (Some False)"
  have fileRead: "readFileConfig ?w = Some \<lparr> commands = Some ?F \<rparr>"
    by (rule readFileConfig_projectWorkspace)
  have cmds: "commands \<lparr> commands = Some ?F \<rparr> = Some ?F"
    by simp
  have nonempty: "?F \<noteq> []"
    by simp
  have flag: "mergeUserAndWorkspace ?w = Some False"
    by (simp add: projectWorkspace_sel)
  from loadShortcuts_no_merge [OF fileRead cmds nonempty flag]
  show ?thesis by blast
qed

text \<open>
  A file record that leaves the defaulted fields out is not returned as it is.
\<close>

theorem no_merge_equals_file_counterexample:
  "readFileConfig (projectWorkspace [shortcut ''a'' ''A'' ''file a''] [] (Some False))
     = Some \<lparr> commands = Some [shortcut ''a'' ''A'' ''file a''] \<rparr> \<and>
   [shortcut ''a'' ''A'' ''file a''] \<noteq> [] \<and>
   loadShortcuts (projectWorkspace [shortcut ''a'' ''A'' ''file a''] [] (Some False))
     \<noteq> [shortcut ''a'' ''A'' ''file a'']"
  by (simp add: loadShortcuts_def readFileConfig_projectWorkspace projectWorkspace_sel
      normalizeShortcuts_def normalizeShortcut_def withDefault_def shortcut_def)

text \<open>
  C5. \<^verbatim>\<open>normalizeShortcuts\<close> keeps the length of the list, and at every position the
  output record has the input record's value in every field that is not defaulted, and
  in each of the four defaulted fields (\<open>reuse\<close>, \<open>focus\<close>, \<open>codicon\<close>, \<open>location\<close>) the
  default (\<open>true\<close>, \<open>true\<close>, \<open>terminal\<close>, \<open>editor\<close>) when the input leaves the field out
  and the input's value otherwise.
\<close>

theorem normalizeShortcuts_defaults:
  "length (normalizeShortcuts arr) = length arr \<and>
   (\<forall>i < length arr.
      let s = arr ! i; r = normalizeShortcuts arr ! i in
        ident r = ident s \<and> label r = label s \<and> command r = command s \<and>
        terminalName r = terminalName s \<and> cwd r = cwd s \<and> env r = env s \<and>
        statusBar r = statusBar s \<and> statusBarText r = statusBarText s \<and>
        icon r = icon s \<and> viewColumn r = viewColumn s \<and>
        reuse r = (if reuse s = None then Some True else reuse s) \<and>
        focus r = (if focus s = None then Some True else focus s) \<and>
        codicon r = (if codicon s = None then Some ''terminal'' else codicon s) \<and>
        location r = (if location s = None then Some ''editor'' else location s))"
  by (simp add: normalizeShortcuts_def normalizeShortcut_def withDefault_def Let_def
      split: option.splits)

theorem normalizeShortcuts_defaults_witness:
  "reuse (normalizeShortcuts
      [(shortcut ''a'' ''A'' ''echo a'')\<lparr> codicon := Some ''tools'', focus := Some False \<rparr>] ! 0)
     = Some True \<and>
   focus (normalizeShortcuts
      [(shortcut ''a'' ''A'' ''echo a'')\<lparr> codicon := Some ''tools'', focus := Some False \<rparr>] ! 0)
     = Some False \<and>
   codicon (normalizeShortcuts
      [(shortcut ''a'' ''A'' ''echo a'')\<lparr> codicon := Some ''tools'', focus := Some False \<rparr>] ! 0)
     = Some ''tools'' \<and>
   location (normalizeShortcuts
      [(shortcut ''a'' ''A'' ''echo a'')\<lparr> codicon := Some ''tools'', focus := Some False \<rparr>] ! 0)
     = Some ''editor''"
  using normalizeShortcuts_defaults
    [of "[(shortcut ''a'' ''A'' ''echo a'')\<lparr> codicon := Some ''tools'', focus := Some False \<rparr>]"]
  by (simp add: shortcut_def Let_def)

section \<open>Facts about the suffix search\<close>

lemma suffixLoop_ge: "i \<le> suffixLoop base existing i"
proof (induction base existing i rule: suffixLoop.induct)
  case (1 base existing i)
  show ?case
  proof (cases "suffixedId base i |\<in>| existing")
    case True
    with "1.IH" have "Suc i \<le> suffixLoop base existing (Suc i)" by simp
    with True show ?thesis by (subst suffixLoop.simps) simp
  next
    case False
    then show ?thesis by (subst suffixLoop.simps) simp
  qed
qed

lemma suffixLoop_free: "suffixedId base (suffixLoop base existing i) |\<notin>| existing"
proof (induction base existing i rule: suffixLoop.induct)
  case (1 base existing i)
  show ?case
  proof (cases "suffixedId base i |\<in>| existing")
    case True
    with "1.IH" show ?thesis by (subst suffixLoop.simps) simp
  next
    case False
    then show ?thesis by (subst suffixLoop.simps) simp
  qed
qed

lemma suffixLoop_least:
  "i \<le> j \<Longrightarrow> j < suffixLoop base existing i \<Longrightarrow> suffixedId base j |\<in>| existing"
proof (induction base existing i rule: suffixLoop.induct)
  case (1 base existing i)
  show ?case
  proof (cases "suffixedId base i |\<in>| existing")
    case True
    show ?thesis
    proof (cases "j = i")
      case True
      with \<open>suffixedId base i |\<in>| existing\<close> show ?thesis by simp
    next
      case False
      with "1.prems"(1) have "Suc i \<le> j" by simp
      moreover from "1.prems"(2) True have "j < suffixLoop base existing (Suc i)"
        by (subst (asm) suffixLoop.simps) simp
      ultimately show ?thesis using True by (rule "1.IH" [rotated])
    qed
  next
    case False
    then have "suffixLoop base existing i = i" by (subst suffixLoop.simps) simp
    with "1.prems" show ?thesis by simp
  qed
qed

lemma suffixLoop_le: "suffixLoop base existing i \<le> i + fcard existing"
proof -
  let ?k = "suffixLoop base existing i"
  have "suffixedId base ` {i..<?k} \<subseteq> fset existing"
    using suffixLoop_least [of i _ base existing] by auto
  then have "card (suffixedId base ` {i..<?k}) \<le> card (fset existing)"
    by (intro card_mono) simp_all
  moreover have "inj_on (suffixedId base) {i..<?k}"
    by (rule inj_onI) (rule suffixedId_inj)
  ultimately have "?k - i \<le> card (fset existing)"
    by (simp add: card_image)
  then show ?thesis
    by (simp add: fcard.rep_eq)
qed

lemma suffixedId_1: "suffixedId base (Suc 0) = base @ ''-1''"
  by (simp add: suffixedId_def toString.simps [of "Suc 0"] digitChars_def)

lemma suffixedId_2: "suffixedId base (Suc (Suc 0)) = base @ ''-2''"
  by (simp add: suffixedId_def toString.simps [of "Suc (Suc 0)"] digitChars_def)

lemma makeUniqueId_build0: "makeUniqueId ''build'' {||} = ''build''"
  by (simp add: makeUniqueId_def)

lemma makeUniqueId_build1: "makeUniqueId ''build'' {|''build''|} = ''build-1''"
  by (simp add: makeUniqueId_def suffixLoop.simps [of _ _ "Suc 0"] suffixedId_1)

lemma makeUniqueId_build2:
  "makeUniqueId ''build'' {|''build'', ''build-1''|} = ''build-2''"
  by (simp add: makeUniqueId_def suffixLoop.simps [of _ _ "Suc 0"]
      suffixLoop.simps [of _ _ "Suc (Suc 0)"] suffixedId_1 suffixedId_2)

lemma suffixLoopFuel_enough:
  "suffixLoop base existing i - i < fuel \<Longrightarrow>
   suffixLoopFuel fuel base existing i = Some (suffixLoop base existing i)"
proof (induction fuel arbitrary: i)
  case 0
  then show ?case by simp
next
  case (Suc fuel)
  show ?case
  proof (cases "suffixedId base i |\<in>| existing")
    case True
    then have step: "suffixLoop base existing i = suffixLoop base existing (Suc i)"
      by (subst suffixLoop.simps) simp
    with Suc.prems have "suffixLoop base existing (Suc i) - Suc i < fuel"
      using suffixLoop_ge [of "Suc i" base existing] by simp
    then have "suffixLoopFuel fuel base existing (Suc i)
        = Some (suffixLoop base existing (Suc i))"
      by (rule Suc.IH)
    with True step show ?thesis by simp
  next
    case False
    then have "suffixLoop base existing i = i"
      by (subst suffixLoop.simps) simp
    with False show ?thesis by simp
  qed
qed

section \<open>Claims about the identifier helper\<close>

text \<open>
  C6. \<^verbatim>\<open>makeUniqueId(base, existing)\<close> is \<open>base\<close> when \<open>base\<close> is not in the set, and
  otherwise \<open>base-k\<close> for the least positive \<open>k\<close> such that \<open>base-k\<close> is not in the set: it
  is not in the set and every \<open>base-j\<close> with \<open>0 < j < k\<close> is. The three examples of the
  specification hold.
\<close>

theorem makeUniqueId_spec:
  "(base |\<notin>| existing \<longrightarrow> makeUniqueId base existing = base) \<and>
   (base |\<in>| existing \<longrightarrow>
      (\<exists>k. 0 < k \<and> makeUniqueId base existing = suffixedId base k \<and>
           suffixedId base k |\<notin>| existing \<and>
           (\<forall>j. 0 < j \<and> j < k \<longrightarrow> suffixedId base j |\<in>| existing))) \<and>
   makeUniqueId ''build'' {||} = ''build'' \<and>
   makeUniqueId ''build'' {|''build''|} = ''build-1'' \<and>
   makeUniqueId ''build'' {|''build'', ''build-1''|} = ''build-2''"
proof (intro conjI impI)
  show "makeUniqueId base existing = base" if "base |\<notin>| existing"
    using that by (simp add: makeUniqueId_def)
next
  assume mem: "base |\<in>| existing"
  let ?k = "suffixLoop base existing 1"
  have "0 < ?k"
    using suffixLoop_ge [of 1 base existing] by simp
  moreover have "makeUniqueId base existing = suffixedId base ?k"
    using mem by (simp add: makeUniqueId_def)
  moreover have "suffixedId base ?k |\<notin>| existing"
    by (rule suffixLoop_free)
  moreover have "\<forall>j. 0 < j \<and> j < ?k \<longrightarrow> suffixedId base j |\<in>| existing"
    using suffixLoop_least [of 1 _ base existing] by auto
  ultimately show "\<exists>k. 0 < k \<and> makeUniqueId base existing = suffixedId base k \<and>
           suffixedId base k |\<notin>| existing \<and>
           (\<forall>j. 0 < j \<and> j < k \<longrightarrow> suffixedId base j |\<in>| existing)"
    by blast
qed (rule makeUniqueId_build0 makeUniqueId_build1 makeUniqueId_build2)+

theorem makeUniqueId_spec_witness:
  "makeUniqueId ''test'' {|''build''|} = ''test'' \<and>
   (\<exists>k. 0 < k \<and> makeUniqueId ''test'' {|''test'', ''test-1''|} = suffixedId ''test'' k \<and>
        suffixedId ''test'' k |\<notin>| {|''test'', ''test-1''|} \<and>
        (\<forall>j. 0 < j \<and> j < k \<longrightarrow> suffixedId ''test'' j |\<in>| {|''test'', ''test-1''|}))"
  using makeUniqueId_spec [of "''test''" "{|''build''|}"]
    makeUniqueId_spec [of "''test''" "{|''test'', ''test-1''|}"]
  by simp

text \<open>
  C10. The suffix search terminates on every base and every finite set: there is a
  positive \<open>k\<close> with \<open>base-k\<close> not in the set, the loop started at 1 returns it, it is at
  most the number of elements of the set plus one, and the loop leaves within that many
  tests of its condition.
\<close>

theorem makeUniqueId_total:
  "\<exists>k. 0 < k \<and> suffixedId base k |\<notin>| existing \<and> k \<le> fcard existing + 1 \<and>
       suffixLoopFuel (fcard existing + 1) base existing 1 = Some k \<and>
       suffixLoop base existing 1 = k"
proof -
  have "0 < suffixLoop base existing 1"
    using suffixLoop_ge [of 1 base existing] by simp
  moreover have "suffixedId base (suffixLoop base existing 1) |\<notin>| existing"
    by (rule suffixLoop_free)
  moreover have le: "suffixLoop base existing 1 \<le> fcard existing + 1"
    using suffixLoop_le [of base existing 1] by simp
  moreover have "suffixLoopFuel (fcard existing + 1) base existing 1
      = Some (suffixLoop base existing 1)"
    using le by (intro suffixLoopFuel_enough) simp
  ultimately show ?thesis
    by blast
qed

section \<open>Facts about the runner\<close>

lemma findTerminal_None:
  "findTerminal n ts = None \<longleftrightarrow> (\<forall>t \<in> set ts. name (options t) \<noteq> n)"
  by (induction ts) auto

lemma findTerminal_Some:
  "findTerminal n ts = Some i \<Longrightarrow>
     i < length ts \<and> name (options (ts ! i)) = n \<and> (\<forall>j < i. name (options (ts ! j)) \<noteq> n)"
proof (induction ts arbitrary: i)
  case Nil
  then show ?case by simp
next
  case (Cons t ts)
  show ?case
  proof (cases "name (options t) = n")
    case True
    with Cons.prems show ?thesis by simp
  next
    case False
    with Cons.prems obtain k where k: "findTerminal n ts = Some k" "i = Suc k"
      by auto
    from Cons.IH [OF k(1)] False k(2) show ?thesis
      by (auto simp: less_Suc_eq_0_disj)
  qed
qed

lemma runShortcut_reuse:
  assumes "reuse s \<noteq> Some False" and "findTerminal (targetName s) (terminals h) = Some i"
  shows "runShortcut s h =
    sendText i (command s) True (showTerminal i (focus s \<noteq> Some False) h)"
  using assms by (simp add: runShortcut_def Let_def)

lemma runShortcut_create:
  assumes "reuse s = Some False \<or> findTerminal (targetName s) (terminals h) = None"
  shows "runShortcut s h =
    (let (t, h1) = createTerminal
           \<lparr> name = targetName s, optCwd = cwd s, optEnv = env s,
             optLocation = resolveTerminalLocation s \<rparr> h
     in sendText t (command s) True (showTerminal t (focus s \<noteq> Some False) h1))"
  using assms by (auto simp: runShortcut_def Let_def)

lemma terminals_showTerminal: "terminals (showTerminal t p h) = terminals h"
  by (simp add: showTerminal_def)

lemma terminals_sendText:
  "terminals (sendText t text nl h) =
     (terminals h)[t := (terminals h ! t)\<lparr> sent := sent (terminals h ! t) @ [(text, nl)] \<rparr>]"
  by (simp add: sendText_def)

lemma createTerminal_result:
  "fst (createTerminal opts h) = length (terminals h)"
  "terminals (snd (createTerminal opts h)) = terminals h @ [\<lparr> options = opts, sent = [] \<rparr>]"
  by (simp_all add: createTerminal_def Let_def split: TerminalLocation.splits)

lemma targetName_cases:
  "(\<forall>t. terminalName s = Some t \<and> t \<noteq> [] \<longrightarrow> targetName s = t) \<and>
   ((terminalName s = None \<or> terminalName s = Some []) \<and> label s \<noteq> []
      \<longrightarrow> targetName s = label s) \<and>
   ((terminalName s = None \<or> terminalName s = Some []) \<and> label s = []
      \<longrightarrow> targetName s = ident s)"
  by (auto simp: targetName_def split: option.splits list.splits)

lemma terminals_runShortcut_reuse:
  assumes "reuse s \<noteq> Some False" and "\<exists>t \<in> set (terminals h). name (options t) = targetName s"
  shows "\<exists>i < length (terminals h).
           name (options (terminals h ! i)) = targetName s \<and>
           (\<forall>j < i. name (options (terminals h ! j)) \<noteq> targetName s) \<and>
           terminals (runShortcut s h) =
             (terminals h)[i := (terminals h ! i)
                \<lparr> sent := sent (terminals h ! i) @ [(command s, True)] \<rparr>]"
proof -
  from assms(2) obtain i where i: "findTerminal (targetName s) (terminals h) = Some i"
    using findTerminal_None [of "targetName s" "terminals h"] by fastforce
  from findTerminal_Some [OF i] runShortcut_reuse [OF assms(1) i]
  show ?thesis
    by (auto simp: terminals_sendText terminals_showTerminal)
qed

lemma terminals_runShortcut_create:
  assumes "\<not> (reuse s \<noteq> Some False \<and>
              (\<exists>t \<in> set (terminals h). name (options t) = targetName s))"
  shows "terminals (runShortcut s h) =
           terminals h @
           [\<lparr> options = \<lparr> name = targetName s, optCwd = cwd s, optEnv = env s,
                          optLocation = resolveTerminalLocation s \<rparr>,
              sent = [(command s, True)] \<rparr>]"
proof -
  from assms have "reuse s = Some False \<or> findTerminal (targetName s) (terminals h) = None"
    by (auto simp: findTerminal_None)
  then show ?thesis
    by (simp add: runShortcut_create case_prod_beta Let_def terminals_sendText
        terminals_showTerminal createTerminal_result)
qed

lemma buildShortcut_sel:
  "terminalName buildShortcut = Some ''Build''" "reuse buildShortcut = Some True"
  "focus buildShortcut = Some True" "command buildShortcut = ''npm run build''"
  "ident buildShortcut = ''build''"
  by (simp_all add: buildShortcut_def)

lemma hostWithBuild_sel:
  "terminals hostWithBuild = [buildSession]" "focused hostWithBuild = None"
  "shortcuts hostWithBuild = [buildShortcut]" "errorMessages hostWithBuild = []"
  by (simp_all add: hostWithBuild_def)

lemma targetName_buildShortcut: "targetName buildShortcut = ''Build''"
  by (simp add: targetName_def buildShortcut_def)

lemma runShortcut_show_argument:
  assumes "reuse s \<noteq> Some False" and "findTerminal (targetName s) (terminals h) = Some i"
  shows "focused (runShortcut s h) = (if focus s \<noteq> Some False then focused h else Some i)"
  using assms by (simp add: runShortcut_reuse sendText_def showTerminal_def)

section \<open>Claims about the runner and the run-by-id command\<close>

text \<open>
  C7. The target name is \<^verbatim>\<open>terminalName\<close> when the record has one that is not empty,
  else \<^verbatim>\<open>label\<close> when it is not empty, else \<^verbatim>\<open>id\<close>. When \<^verbatim>\<open>reuse\<close> is not
  \<open>false\<close> and an open session has exactly that name, no session is created and the
  command text (with the implicit newline) is sent to the first open session of that name. In
  every other case, also for \<^verbatim>\<open>reuse = false\<close> with a session of that name open, a
  new session with that name, the record's working directory, environment and location is
  added, and the command text is sent to it.
\<close>

theorem runShortcut_session:
  "(\<forall>t. terminalName s = Some t \<and> t \<noteq> [] \<longrightarrow> targetName s = t) \<and>
   ((terminalName s = None \<or> terminalName s = Some []) \<and> label s \<noteq> []
      \<longrightarrow> targetName s = label s) \<and>
   ((terminalName s = None \<or> terminalName s = Some []) \<and> label s = []
      \<longrightarrow> targetName s = ident s) \<and>
   (reuse s \<noteq> Some False \<and> (\<exists>t \<in> set (terminals h). name (options t) = targetName s)
      \<longrightarrow> length (terminals (runShortcut s h)) = length (terminals h) \<and>
          (\<exists>i < length (terminals h).
             name (options (terminals h ! i)) = targetName s \<and>
             (\<forall>j < i. name (options (terminals h ! j)) \<noteq> targetName s) \<and>
             terminals (runShortcut s h) =
               (terminals h)[i := (terminals h ! i)
                  \<lparr> sent := sent (terminals h ! i) @ [(command s, True)] \<rparr>])) \<and>
   (\<not> (reuse s \<noteq> Some False \<and> (\<exists>t \<in> set (terminals h). name (options t) = targetName s))
      \<longrightarrow> terminals (runShortcut s h) =
            terminals h @
            [\<lparr> options = \<lparr> name = targetName s, optCwd = cwd s, optEnv = env s,
                           optLocation = resolveTerminalLocation s \<rparr>,
               sent = [(command s, True)] \<rparr>])"
proof -
  have "length (terminals (runShortcut s h)) = length (terminals h)"
    if "reuse s \<noteq> Some False" "\<exists>t \<in> set (terminals h). name (options t) = targetName s"
    using terminals_runShortcut_reuse [OF that] by auto
  then show ?thesis
    using targetName_cases [of s] terminals_runShortcut_reuse [of s h]
      terminals_runShortcut_create [of s h]
    by blast
qed

theorem runShortcut_session_witness:
  "targetName buildShortcut = ''Build'' \<and>
   terminals (runShortcut buildShortcut hostWithBuild)
     = [buildSession\<lparr> sent := [(''npm run build'', True)] \<rparr>] \<and>
   length (terminals (runShortcut (buildShortcut\<lparr> reuse := Some False \<rparr>) hostWithBuild)) = 2"
proof -
  have n: "targetName buildShortcut = ''Build''"
    using runShortcut_session [of buildShortcut hostWithBuild]
    by (simp add: buildShortcut_sel)
  have open_session:
    "reuse buildShortcut \<noteq> Some False \<and>
     (\<exists>t \<in> set (terminals hostWithBuild). name (options t) = targetName buildShortcut)"
    by (simp add: buildShortcut_sel hostWithBuild_sel targetName_buildShortcut buildSession_def)
  with runShortcut_session [of buildShortcut hostWithBuild]
  have "\<exists>i < length (terminals hostWithBuild).
          terminals (runShortcut buildShortcut hostWithBuild) =
            (terminals hostWithBuild)[i := (terminals hostWithBuild ! i)
               \<lparr> sent := sent (terminals hostWithBuild ! i) @ [(command buildShortcut, True)] \<rparr>]"
    by blast
  then have r: "terminals (runShortcut buildShortcut hostWithBuild)
     = [buildSession\<lparr> sent := [(''npm run build'', True)] \<rparr>]"
    by (simp add: hostWithBuild_sel buildShortcut_sel buildSession_def)
  have "\<not> (reuse (buildShortcut\<lparr> reuse := Some False \<rparr>) \<noteq> Some False \<and>
     (\<exists>t \<in> set (terminals hostWithBuild).
        name (options t) = targetName (buildShortcut\<lparr> reuse := Some False \<rparr>)))"
    by simp
  with runShortcut_session [of "buildShortcut\<lparr> reuse := Some False \<rparr>" hostWithBuild]
  have "terminals (runShortcut (buildShortcut\<lparr> reuse := Some False \<rparr>) hostWithBuild) =
          terminals hostWithBuild @
            [\<lparr> options = \<lparr> name = targetName (buildShortcut\<lparr> reuse := Some False \<rparr>),
                 optCwd = cwd (buildShortcut\<lparr> reuse := Some False \<rparr>),
                 optEnv = env (buildShortcut\<lparr> reuse := Some False \<rparr>),
                 optLocation = resolveTerminalLocation (buildShortcut\<lparr> reuse := Some False \<rparr>) \<rparr>,
               sent = [(command (buildShortcut\<lparr> reuse := Some False \<rparr>), True)] \<rparr>]"
    by blast
  then have "length (terminals (runShortcut (buildShortcut\<lparr> reuse := Some False \<rparr>) hostWithBuild)) = 2"
    by (simp add: hostWithBuild_sel)
  with n r show ?thesis by blast
qed

text \<open>
  C8 does not hold of the code. \<^verbatim>\<open>runShortcut\<close> reveals the session in every case, and
  it hands \<^verbatim>\<open>s.focus !== false\<close> to \<^verbatim>\<open>terminal.show\<close>, whose parameter is
  \<^verbatim>\<open>preserveFocus\<close>: run with \<^verbatim>\<open>focus = true\<close> on an open session while the focus is
  elsewhere, the session is revealed and the focus stays where it was; run with
  \<^verbatim>\<open>focus = false\<close>, the session takes the focus. \<^verbatim>\<open>resolveTerminalLocation\<close>, in the
  same file, passes \<^verbatim>\<open>preserveFocus: s.focus === false\<close>, the other way round.
\<close>

theorem runShortcut_focus_inverted:
  "focus buildShortcut = Some True \<and>
   focused hostWithBuild = None \<and>
   revealed (runShortcut buildShortcut hostWithBuild) = Some 0 \<and>
   focused (runShortcut buildShortcut hostWithBuild) = None \<and>
   focused (runShortcut (buildShortcut\<lparr> focus := Some False \<rparr>) hostWithBuild) = Some 0"
  by (simp add: runShortcut_def targetName_def buildShortcut_def hostWithBuild_def
      buildSession_def showTerminal_def sendText_def Let_def)

text \<open>
  C9, as the code has it. For an id that is not empty and is not the id of a record of the
  resolved list, the command shows the error notice and changes nothing else: no session is
  created, revealed, focused or written to, and the resolved list stays as it is. For the
  empty id and for a missing argument the command returns at its guard and changes
  nothing at all, so no notice is shown.
\<close>

theorem runShortcutCommand_unknown_id:
  "(i \<noteq> [] \<and> i \<notin> set (map ident (shortcuts h)) \<longrightarrow>
      runShortcutCommand (Some i) h =
        h\<lparr> errorMessages := errorMessages h @ [''Raccourci introuvable: '' @ i] \<rparr>) \<and>
   runShortcutCommand (Some []) h = h \<and>
   runShortcutCommand None h = h"
proof (intro conjI impI)
  assume a: "i \<noteq> [] \<and> i \<notin> set (map ident (shortcuts h))"
  then have "find (\<lambda>x. ident x = i) (shortcuts h) = None"
    by (auto simp: find_None_iff)
  with a show "runShortcutCommand (Some i) h =
        h\<lparr> errorMessages := errorMessages h @ [''Raccourci introuvable: '' @ i] \<rparr>"
    by (simp add: runShortcutCommand_def ensureLoaded_def showErrorMessage_def)
qed (simp_all add: runShortcutCommand_def ensureLoaded_def)

theorem runShortcutCommand_unknown_id_witness:
  "runShortcutCommand (Some ''deploy'') hostWithBuild =
     hostWithBuild\<lparr> errorMessages := [''Raccourci introuvable: deploy''] \<rparr>"
  using runShortcutCommand_unknown_id [of "''deploy''" hostWithBuild]
  by (simp add: hostWithBuild_sel buildShortcut_sel)

text \<open>
  The empty id is not in the resolved list, and no notice is shown for it.
\<close>

theorem empty_id_silent_counterexample:
  "[] \<notin> set (map ident (shortcuts hostWithBuild)) \<and>
   errorMessages (runShortcutCommand (Some []) hostWithBuild) = errorMessages hostWithBuild"
  by (simp add: runShortcutCommand_def ensureLoaded_def hostWithBuild_sel buildShortcut_sel)

end
